theory Spec2Isabelle
  imports Main
begin

section \<open>Python values and errors\<close>

text \<open>
  The exceptions the rotation module can raise, as values. A function that may raise
  returns \<open>py_error + 'a\<close>, with \<open>Inl\<close> for the exception.

  A Python string is modelled as a list of code points below 256 (\<open>string\<close>); text
  outside that range is not modelled.
\<close>

datatype py_error =
  KeyError | ValueError | IndexError | ZeroDivisionError | AttributeError | TypeError

subsection \<open>\<open>str.split(sep)\<close> for a non-empty separator\<close>

text \<open>
  Python scans left to right and cuts at every non-overlapping occurrence of the
  separator. \<open>skip\<close> counts the characters of a separator just matched that are still
  to be dropped; \<open>acc\<close> is the current piece, reversed.
\<close>

fun py_split_aux :: "string \<Rightarrow> nat \<Rightarrow> string \<Rightarrow> string \<Rightarrow> string list" where
  "py_split_aux sep skip acc [] = [rev acc]"
| "py_split_aux sep skip acc (c # cs) =
     (if 0 < skip then py_split_aux sep (skip - 1) acc cs
      else if take (length sep) (c # cs) = sep
        then rev acc # py_split_aux sep (length sep - 1) [] cs
      else py_split_aux sep 0 (c # acc) cs)"

definition py_split :: "string \<Rightarrow> string \<Rightarrow> string list" where
  "py_split sep s = py_split_aux sep 0 [] s"

subsection \<open>\<open>int(str)\<close>\<close>

text \<open>
  \<open>int\<close> of a string strips white space at both ends (tab to carriage return, space,
  and the two white-space code points U+0085 and U+00A0), reads an optional sign and then
  decimal digits, where single underscores may stand between digits. Anything else is a
  \<open>ValueError\<close>. The interpreter's default limit of 4300 digits is part of the model.
\<close>

definition is_space :: "char \<Rightarrow> bool" where
  "is_space c = (let n = (of_char c :: nat) in
     (9 \<le> n \<and> n \<le> 13) \<or> n = 32 \<or> n = 133 \<or> n = 160)"

definition is_digit :: "char \<Rightarrow> bool" where
  "is_digit c = (let n = (of_char c :: nat) in 48 \<le> n \<and> n \<le> 57)"

definition digit_val :: "char \<Rightarrow> int" where
  "digit_val c = int (of_char c) - 48"

fun parse_digits :: "int \<Rightarrow> string \<Rightarrow> int option" where
  "parse_digits acc [] = Some acc"
| "parse_digits acc [c] = (if is_digit c then Some (acc * 10 + digit_val c) else None)"
| "parse_digits acc (c # d # ds) =
     (if is_digit c then parse_digits (acc * 10 + digit_val c) (d # ds)
      else if c = CHR ''_'' \<and> is_digit d then parse_digits (acc * 10 + digit_val d) ds
      else None)"

definition int_max_str_digits :: nat where
  "int_max_str_digits = 4300"

definition py_strip :: "string \<Rightarrow> string" where
  "py_strip s = rev (dropWhile is_space (rev (dropWhile is_space s)))"

definition py_int :: "string \<Rightarrow> py_error + int" where
  "py_int s =
     (case py_strip s of
        [] \<Rightarrow> Inl ValueError
      | c # cs \<Rightarrow>
          (let sgn = (if c = CHR ''-'' then - 1 else 1 :: int);
               body = (if c = CHR ''-'' \<or> c = CHR ''+'' then cs else c # cs)
           in case body of
                [] \<Rightarrow> Inl ValueError
              | d # ds \<Rightarrow>
                  if \<not> is_digit d then Inl ValueError
                  else if int_max_str_digits < length (filter is_digit body) then Inl ValueError
                  else (case parse_digits (digit_val d) ds of
                          None \<Rightarrow> Inl ValueError
                        | Some n \<Rightarrow> Inr (sgn * n))))"

subsection \<open>\<open>list.index\<close>\<close>

fun py_index :: "'a list \<Rightarrow> 'a \<Rightarrow> py_error + nat" where
  "py_index [] x = Inl ValueError"
| "py_index (y # ys) x =
     (if y = x then Inr 0
      else (case py_index ys x of Inl e \<Rightarrow> Inl e | Inr i \<Rightarrow> Inr (Suc i)))"

section \<open>The schedule dataset\<close>

text \<open>
  The schedule is the dictionary read from the JSON file. A key of the top-level
  dictionary may be missing (\<open>None\<close>): the code reads \<open>default_rotation\<close> and
  \<open>start_week\<close> with \<open>[]\<close> (a missing key raises \<open>KeyError\<close>) and the other three with
  \<open>.get(key, {})\<close>. The inner dictionaries are association lists in insertion order,
  since the code iterates over \<open>vacation_weeks\<close>; the keys of a dictionary are distinct,
  which no statement below depends on. Names, weeks and messages are strings, and a
  vacation entry is a list of weeks, as in the JSON file.
\<close>

record schedule_data =
  default_rotation :: "string list option"
  start_week :: "string option"
  schedule_overrides :: "(string \<times> string) list option"
  vacation_weeks :: "(string \<times> string list) list option"
  special_messages :: "(string \<times> string) list option"

definition get_or_empty :: "('k \<times> 'v) list option \<Rightarrow> ('k \<times> 'v) list" where
  "get_or_empty d = (case d of None \<Rightarrow> [] | Some kvs \<Rightarrow> kvs)"

section \<open>The rotation module\<close>

definition get_week_number :: "string \<Rightarrow> py_error + int" where
  "get_week_number week_string =
     (case py_split ''-W'' week_string of
        _ # week_str # _ \<Rightarrow> py_int week_str
      | _ \<Rightarrow> Inl IndexError)"

definition get_total_weeks_since_epoch :: "string \<Rightarrow> py_error + int" where
  "get_total_weeks_since_epoch week_string =
     (case py_split ''-W'' week_string of
        [year_str, week_str] \<Rightarrow>
          (case py_int year_str of
             Inl e \<Rightarrow> Inl e
           | Inr year_int \<Rightarrow>
               (case py_int week_str of
                  Inl e \<Rightarrow> Inl e
                | Inr week_int \<Rightarrow> Inr ((year_int - 2000) * 52 + week_int)))
      | _ \<Rightarrow> Inl ValueError)"

definition get_vacation_coverage ::
  "string \<Rightarrow> string \<Rightarrow> schedule_data \<Rightarrow> py_error + string option" where
  "get_vacation_coverage person week_string sd =
     (case default_rotation sd of
        None \<Rightarrow> Inl KeyError
      | Some rotation \<Rightarrow>
          if person \<notin> set rotation then Inr None
          else (case py_index rotation person of
                  Inl e \<Rightarrow> Inl e
                | Inr person_index \<Rightarrow>
                    (let next_index = (person_index + 1) mod length rotation
                     in Inr (Some (rotation ! next_index)))))"

text \<open>
  The loop over \<open>vacation_weeks.items()\<close> of \<open>get_responsible_person\<close>: it returns at
  the first entry whose week list holds the week and whose coverage is truthy (a
  non-empty name); \<open>Inr None\<close> is the loop running to its end.
\<close>

fun vacation_loop ::
  "string \<Rightarrow> schedule_data \<Rightarrow> (string \<times> string list) list \<Rightarrow> py_error + string option" where
  "vacation_loop week_string sd [] = Inr None"
| "vacation_loop week_string sd ((person, weeks) # rest) =
     (if week_string \<in> set weeks then
        (case get_vacation_coverage person week_string sd of
           Inl e \<Rightarrow> Inl e
         | Inr None \<Rightarrow> vacation_loop week_string sd rest
         | Inr (Some coverage) \<Rightarrow>
             if coverage \<noteq> [] then Inr (Some coverage)
             else vacation_loop week_string sd rest)
      else vacation_loop week_string sd rest)"

text \<open>
  The last part of \<open>get_responsible_person\<close> ("Calculate from default rotation"), in
  the order the code evaluates it: the week is parsed first, then \<open>start_week\<close> is read
  and parsed, then \<open>default_rotation\<close> is read and the remainder taken. Python's \<open>%\<close>
  on integers is the floored remainder, as \<open>mod\<close> on \<open>int\<close> is, and it raises
  \<open>ZeroDivisionError\<close> for an empty rotation.
\<close>

definition default_branch :: "string \<Rightarrow> schedule_data \<Rightarrow> py_error + string" where
  "default_branch week_string sd =
     (case get_total_weeks_since_epoch week_string of
        Inl e \<Rightarrow> Inl e
      | Inr total_weeks \<Rightarrow>
          (case start_week sd of
             None \<Rightarrow> Inl KeyError
           | Some sw \<Rightarrow>
               (case get_total_weeks_since_epoch sw of
                  Inl e \<Rightarrow> Inl e
                | Inr start_total_weeks \<Rightarrow>
                    (let weeks_since_start = total_weeks - start_total_weeks in
                     case default_rotation sd of
                       None \<Rightarrow> Inl KeyError
                     | Some rotation \<Rightarrow>
                         if rotation = [] then Inl ZeroDivisionError
                         else Inr (rotation !
                                nat (weeks_since_start mod int (length rotation)))))))"

definition get_responsible_person ::
  "string \<Rightarrow> schedule_data \<Rightarrow> py_error + (string \<times> string option)" where
  "get_responsible_person week_string sd =
     (let special_message = map_of (get_or_empty (special_messages sd)) week_string in
      case vacation_loop week_string sd (get_or_empty (vacation_weeks sd)) of
        Inl e \<Rightarrow> Inl e
      | Inr (Some coverage) \<Rightarrow> Inr (coverage, special_message)
      | Inr None \<Rightarrow>
          (case map_of (get_or_empty (schedule_overrides sd)) week_string of
             Some person \<Rightarrow> Inr (person, special_message)
           | None \<Rightarrow>
               (case default_branch week_string sd of
                  Inl e \<Rightarrow> Inl e
                | Inr person \<Rightarrow> Inr (person, special_message))))"

section \<open>\<open>str.format\<close> with the keyword arguments \<open>name\<close> and \<open>week\<close>\<close>

text \<open>
  \<open>format_message\<close> calls \<open>template.format(name=name, week=week_number)\<close>: no positional
  arguments, a string and an integer as keyword arguments. The model follows the
  interpreter's format-string scanner: literal text with the escapes \<open>{{\<close> and \<open>}}\<close>, and
  replacement fields \<open>{field_name!conversion:format_spec}\<close>, whose format spec may hold
  replacement fields of its own, expanded one level deep.
\<close>

datatype py_value = PStr string | PInt int

fun nat_digits :: "nat \<Rightarrow> string" where
  "nat_digits n =
     (if n < 10 then [char_of (48 + n)]
      else nat_digits (n div 10) @ [char_of (48 + n mod 10)])"

declare nat_digits.simps [simp del]

definition py_str :: "py_value \<Rightarrow> string" where
  "py_str v =
     (case v of
        PStr s \<Rightarrow> s
      | PInt i \<Rightarrow> if i < 0 then CHR ''-'' # nat_digits (nat (- i)) else nat_digits (nat i))"

text \<open>
  A replacement field as the scanner delivers it. The conversion is a character, with
  the character of code 0 for "no conversion", as in the interpreter.
\<close>

record format_field =
  field_name :: string
  conversion :: char
  format_spec :: string
  format_spec_needs_expanding :: bool

text \<open>
  The field name ends at \<open>}\<close>, \<open>:\<close> or \<open>!\<close>; between \<open>[\<close> and \<open>]\<close> these characters are
  skipped; a \<open>{\<close> in the name, and the end of the string, are errors. The result is the
  name, the character that ended it and the text after it.
\<close>

fun scan_field_name :: "string \<Rightarrow> bool \<Rightarrow> string \<Rightarrow> py_error + (string \<times> char \<times> string)" where
  "scan_field_name acc in_bracket [] = Inl ValueError"
| "scan_field_name acc in_bracket (c # cs) =
     (if in_bracket then scan_field_name (c # acc) (c \<noteq> CHR '']'') cs
      else if c = CHR ''{'' then Inl ValueError
      else if c = CHR ''['' then scan_field_name (c # acc) True cs
      else if c = CHR ''}'' \<or> c = CHR '':'' \<or> c = CHR ''!'' then Inr (rev acc, c, cs)
      else scan_field_name (c # acc) False cs)"

text \<open>
  The format spec runs to the brace that closes the field; braces nest, and an opening
  brace marks the spec as one to expand.
\<close>

fun scan_format_spec ::
  "nat \<Rightarrow> bool \<Rightarrow> string \<Rightarrow> string \<Rightarrow> py_error + (string \<times> bool \<times> string)" where
  "scan_format_spec count needs acc [] = Inl ValueError"
| "scan_format_spec count needs acc (c # cs) =
     (if c = CHR ''{'' then scan_format_spec (count + 1) True (c # acc) cs
      else if c = CHR ''}'' then
        (if count - 1 = 0 then Inr (rev acc, needs, cs)
         else scan_format_spec (count - 1) needs (c # acc) cs)
      else scan_format_spec count needs (c # acc) cs)"

definition parse_format_spec ::
  "string \<Rightarrow> char \<Rightarrow> string \<Rightarrow> py_error + (format_field \<times> string)" where
  "parse_format_spec fname conv s =
     (case scan_format_spec 1 False [] s of
        Inl e \<Rightarrow> Inl e
      | Inr (spec, needs, rest) \<Rightarrow>
          Inr (\<lparr>field_name = fname, conversion = conv, format_spec = spec,
                format_spec_needs_expanding = needs\<rparr>, rest))"

definition parse_field :: "string \<Rightarrow> py_error + (format_field \<times> string)" where
  "parse_field s =
     (case scan_field_name [] False s of
        Inl e \<Rightarrow> Inl e
      | Inr (fname, c, rest) \<Rightarrow>
          if c = CHR ''!'' then
            (case rest of
               [] \<Rightarrow> Inl ValueError
             | conv # rest1 \<Rightarrow>
                 (case rest1 of
                    [] \<Rightarrow> parse_format_spec fname conv rest1
                  | c2 # rest2 \<Rightarrow>
                      if c2 = CHR ''}'' then
                        Inr (\<lparr>field_name = fname, conversion = conv, format_spec = [],
                              format_spec_needs_expanding = False\<rparr>, rest2)
                      else if c2 \<noteq> CHR '':'' then Inl ValueError
                      else parse_format_spec fname conv rest2))
          else if c = CHR '':'' then parse_format_spec fname (CHR 0x00) rest
          else Inr (\<lparr>field_name = fname, conversion = CHR 0x00, format_spec = [],
                     format_spec_needs_expanding = False\<rparr>, rest))"

text \<open>
  One step of the scanner on a non-empty string: the literal text up to the next brace,
  the field that follows it (if any) and the text still to scan. A doubled brace is an
  escape and ends the literal; a single \<open>}\<close>, and a \<open>{\<close> at the end, are errors.
\<close>

fun markup_next :: "string \<Rightarrow> string \<Rightarrow> py_error + (string \<times> format_field option \<times> string)" where
  "markup_next acc [] = Inr (rev acc, None, [])"
| "markup_next acc (c # cs) =
     (if c = CHR ''{'' \<or> c = CHR ''}'' then
        (case cs of
           [] \<Rightarrow> Inl ValueError
         | d # ds \<Rightarrow>
             if d = c then Inr (rev (c # acc), None, ds)
             else if c = CHR ''}'' then Inl ValueError
             else (case parse_field cs of
                     Inl e \<Rightarrow> Inl e
                   | Inr (f, rest) \<Rightarrow> Inr (rev acc, Some f, rest)))
      else markup_next (c # acc) cs)"

lemma scan_field_name_shorter:
  "scan_field_name acc b s = Inr (n, c, rest) \<Longrightarrow> length rest < length s"
  by (induction acc b s rule: scan_field_name.induct) (auto split: if_splits)

lemma scan_format_spec_shorter:
  "scan_format_spec k needs acc s = Inr (spec, needs', rest) \<Longrightarrow> length rest < length s"
  by (induction k needs acc s rule: scan_format_spec.induct) (auto split: if_splits)

lemma parse_format_spec_shorter:
  "parse_format_spec fname conv s = Inr (f, rest) \<Longrightarrow> length rest < length s"
  by (auto simp: parse_format_spec_def split: sum.splits dest: scan_format_spec_shorter)

lemma parse_field_shorter:
  "parse_field s = Inr (f, rest) \<Longrightarrow> length rest < length s"
  by (auto simp: parse_field_def split: sum.splits if_splits list.splits
        dest!: scan_field_name_shorter parse_format_spec_shorter)

lemma markup_next_shorter_or_empty:
  "markup_next acc s = Inr (lit, f, rest) \<Longrightarrow> length rest < length s \<or> s = []"
  by (induction acc s rule: markup_next.induct)
     (auto split: if_splits list.splits sum.splits dest!: parse_field_shorter)

lemma markup_next_shorter:
  "markup_next acc s = Inr (lit, f, rest) \<Longrightarrow> s \<noteq> [] \<Longrightarrow> length rest < length s"
  using markup_next_shorter_or_empty by blast

text \<open>
  The scanner run over a whole string: the literal texts and fields in order, and the
  error that stopped the scan, if any. The interpreter renders each field before it scans
  on, so the first error in this order is the one raised.
\<close>

function markup_items :: "string \<Rightarrow> (string \<times> format_field option) list \<times> py_error option" where
  "markup_items [] = ([], None)"
| "markup_items (c # cs) =
     (case markup_next [] (c # cs) of
        Inl e \<Rightarrow> ([], Some e)
      | Inr (lit, f, rest) \<Rightarrow>
          (case markup_items rest of (items, err) \<Rightarrow> ((lit, f) # items, err)))"
  by pat_completeness auto
termination
proof (relation "measure length")
  show "wf (measure length)" by simp
next
  fix c cs x lit y f rest
  assume "markup_next [] (c # cs) = Inr x" "(lit, y) = x" "(f, rest) = y"
  then have "markup_next [] (c # cs) = Inr (lit, f, rest)" by simp
  then have "length rest < length (c # cs)" by (rule markup_next_shorter) simp
  then show "(rest, c # cs) \<in> measure length" by simp
qed

subsection \<open>Looking up and rendering a field\<close>

text \<open>
  The part of the field name before the first \<open>.\<close> or \<open>[\<close> names the argument. It is a
  positional index when it is empty or all digits; otherwise it is a keyword.
\<close>

definition PY_SSIZE_T_MAX :: int where
  "PY_SSIZE_T_MAX = 2 ^ 63 - 1"

fun get_integer_loop :: "int \<Rightarrow> string \<Rightarrow> py_error + int option" where
  "get_integer_loop accumulator [] = Inr (Some accumulator)"
| "get_integer_loop accumulator (c # cs) =
     (if \<not> is_digit c then Inr None
      else if accumulator > (PY_SSIZE_T_MAX - digit_val c) div 10 then Inl ValueError
      else get_integer_loop (accumulator * 10 + digit_val c) cs)"

definition get_integer :: "string \<Rightarrow> py_error + int option" where
  "get_integer s = (if s = [] then Inr None else get_integer_loop 0 s)"

definition is_accessor_start :: "char \<Rightarrow> bool" where
  "is_accessor_start c = (c = CHR ''.'' \<or> c = CHR ''['')"

definition arg_name :: "string \<Rightarrow> string" where
  "arg_name fname = takeWhile (\<lambda>c. \<not> is_accessor_start c) fname"

definition accessors :: "string \<Rightarrow> string" where
  "accessors fname = dropWhile (\<lambda>c. \<not> is_accessor_start c) fname"

text \<open>
  What Python does with attribute and index access on the argument, with the
  conversions \<open>!r\<close>, \<open>!s\<close>, \<open>!a\<close> and with a non-empty format spec is not part of this
  repository; it is a parameter of the model. \<open>'o\<close> is the type of the objects these
  operations may produce.
\<close>

record 'o py_runtime =
  access_ext :: "py_value \<Rightarrow> string \<Rightarrow> py_error + 'o"
  convert_ext :: "py_value + 'o \<Rightarrow> char \<Rightarrow> py_error + 'o"
  format_ext :: "py_value + 'o \<Rightarrow> string \<Rightarrow> py_error + string"

definition lookup_keyword :: "string \<Rightarrow> int \<Rightarrow> string \<Rightarrow> py_error + py_value" where
  "lookup_keyword name week key =
     (if key = ''name'' then Inr (PStr name)
      else if key = ''week'' then Inr (PInt week)
      else Inl KeyError)"

definition get_field_object ::
  "'o py_runtime \<Rightarrow> string \<Rightarrow> int \<Rightarrow> string \<Rightarrow> py_error + (py_value + 'o)" where
  "get_field_object rt name week fname =
     (case get_integer (arg_name fname) of
        Inl e \<Rightarrow> Inl e
      | Inr (Some index) \<Rightarrow> Inl IndexError
      | Inr None \<Rightarrow>
          if arg_name fname = [] then Inl IndexError
          else (case lookup_keyword name week (arg_name fname) of
                  Inl e \<Rightarrow> Inl e
                | Inr v \<Rightarrow>
                    if accessors fname = [] then Inr (Inl v)
                    else (case access_ext rt v (accessors fname) of
                            Inl e \<Rightarrow> Inl e
                          | Inr obj \<Rightarrow> Inr (Inr obj))))"

definition do_conversion ::
  "'o py_runtime \<Rightarrow> py_value + 'o \<Rightarrow> char \<Rightarrow> py_error + (py_value + 'o)" where
  "do_conversion rt obj conv =
     (if conv = CHR ''r'' \<or> conv = CHR ''s'' \<or> conv = CHR ''a'' then
        (case convert_ext rt obj conv of Inl e \<Rightarrow> Inl e | Inr obj' \<Rightarrow> Inr (Inr obj'))
      else Inl ValueError)"

definition render_field :: "'o py_runtime \<Rightarrow> py_value + 'o \<Rightarrow> string \<Rightarrow> py_error + string" where
  "render_field rt obj spec =
     (case obj of
        Inl v \<Rightarrow> if spec = [] then Inr (py_str v) else format_ext rt obj spec
      | Inr _ \<Rightarrow> format_ext rt obj spec)"

definition output_markup ::
  "'o py_runtime \<Rightarrow> string \<Rightarrow> int \<Rightarrow> (string \<Rightarrow> py_error + string) \<Rightarrow> format_field \<Rightarrow>
   py_error + string" where
  "output_markup rt name week expand f =
     (case get_field_object rt name week (field_name f) of
        Inl e \<Rightarrow> Inl e
      | Inr fieldobj \<Rightarrow>
          (case (if conversion f \<noteq> CHR 0x00 then do_conversion rt fieldobj (conversion f)
                 else Inr fieldobj) of
             Inl e \<Rightarrow> Inl e
           | Inr obj \<Rightarrow>
               (case (if format_spec_needs_expanding f then expand (format_spec f)
                      else Inr (format_spec f)) of
                  Inl e \<Rightarrow> Inl e
                | Inr actual_format_spec \<Rightarrow> render_field rt obj actual_format_spec)))"

fun do_markup ::
  "'o py_runtime \<Rightarrow> string \<Rightarrow> int \<Rightarrow> (string \<Rightarrow> py_error + string) \<Rightarrow>
   (string \<times> format_field option) list \<Rightarrow> py_error option \<Rightarrow> py_error + string" where
  "do_markup rt name week expand [] err = (case err of None \<Rightarrow> Inr [] | Some e \<Rightarrow> Inl e)"
| "do_markup rt name week expand ((lit, fo) # items) err =
     (case (case fo of None \<Rightarrow> Inr [] | Some f \<Rightarrow> output_markup rt name week expand f) of
        Inl e \<Rightarrow> Inl e
      | Inr text \<Rightarrow>
          (case do_markup rt name week expand items err of
             Inl e \<Rightarrow> Inl e
           | Inr tail \<Rightarrow> Inr (lit @ text @ tail)))"

text \<open>
  \<open>build_string\<close> with its recursion depth: at depth 0 it raises ("Max string recursion
  exceeded"); the format spec of a field is expanded at one depth less.
\<close>

primrec build_string :: "'o py_runtime \<Rightarrow> string \<Rightarrow> int \<Rightarrow> nat \<Rightarrow> string \<Rightarrow> py_error + string" where
  "build_string rt name week 0 = (\<lambda>s. Inl ValueError)"
| "build_string rt name week (Suc depth) =
     (\<lambda>s. case markup_items s of
             (items, err) \<Rightarrow> do_markup rt name week (build_string rt name week depth) items err)"

declare build_string.simps [simp del]

subsection \<open>\<open>format_message\<close>\<close>

text \<open>
  \<open>str.format\<close> starts \<open>build_string\<close> at depth 2. \<open>format_message\<close> takes the week
  number from the week identifier first, then formats the special message if it is
  truthy (present and not empty), else the template.
\<close>

definition py_format :: "'o py_runtime \<Rightarrow> string \<Rightarrow> string \<Rightarrow> int \<Rightarrow> py_error + string" where
  "py_format rt template name week = build_string rt name week 2 template"

definition format_message ::
  "'o py_runtime \<Rightarrow> string \<Rightarrow> string \<Rightarrow> string \<Rightarrow> string option \<Rightarrow> py_error + string" where
  "format_message rt template name week_string special_message =
     (case get_week_number week_string of
        Inl e \<Rightarrow> Inl e
      | Inr week_number \<Rightarrow>
          (case special_message of
             Some special \<Rightarrow>
               if special \<noteq> [] then py_format rt special name week_number
               else py_format rt template name week_number
           | None \<Rightarrow> py_format rt template name week_number))"

section \<open>Templates used in the statements about \<open>format_message\<close>\<close>

text \<open>
  A template written with the two placeholders only: pieces of text without braces,
  \<open>{name}\<close> and \<open>{week}\<close>. \<open>template_of\<close> is the template string, \<open>substituted\<close> the
  message expected for it.
\<close>

datatype piece = Text string | NamePlaceholder | WeekPlaceholder

fun template_of :: "piece list \<Rightarrow> string" where
  "template_of [] = []"
| "template_of (Text t # ps) = t @ template_of ps"
| "template_of (NamePlaceholder # ps) = ''{name}'' @ template_of ps"
| "template_of (WeekPlaceholder # ps) = ''{week}'' @ template_of ps"

fun substituted :: "string \<Rightarrow> int \<Rightarrow> piece list \<Rightarrow> string" where
  "substituted name week [] = []"
| "substituted name week (Text t # ps) = t @ substituted name week ps"
| "substituted name week (NamePlaceholder # ps) = name @ substituted name week ps"
| "substituted name week (WeekPlaceholder # ps) = py_str (PInt week) @ substituted name week ps"

definition brace_free :: "string \<Rightarrow> bool" where
  "brace_free t = list_all (\<lambda>c. c \<noteq> CHR ''{'' \<and> c \<noteq> CHR ''}'') t"

fun plain_pieces :: "piece list \<Rightarrow> bool" where
  "plain_pieces [] = True"
| "plain_pieces (Text t # ps) = (brace_free t \<and> plain_pieces ps)"
| "plain_pieces (NamePlaceholder # ps) = plain_pieces ps"
| "plain_pieces (WeekPlaceholder # ps) = plain_pieces ps"

text \<open>
  A template references an unknown placeholder when one of its replacement fields, or a
  replacement field inside a format spec (to any depth \<open>d\<close> of nesting), names an
  argument other than \<open>name\<close> and \<open>week\<close>; positional fields (\<open>{}\<close>, \<open>{0}\<close>) are among
  them.
\<close>

definition known_argument :: "string \<Rightarrow> bool" where
  "known_argument fname = (arg_name fname = ''name'' \<or> arg_name fname = ''week'')"

primrec references_unknown :: "nat \<Rightarrow> string \<Rightarrow> bool" where
  "references_unknown 0 = (\<lambda>s. False)"
| "references_unknown (Suc d) =
     (\<lambda>s. list_ex (\<lambda>(lit, fo).
              case fo of
                None \<Rightarrow> False
              | Some f \<Rightarrow> \<not> known_argument (field_name f) \<or>
                  (format_spec_needs_expanding f \<and> references_unknown d (format_spec f)))
            (fst (markup_items s)))"

text \<open>A runtime for closed examples: every operation outside the model raises.\<close>

definition strict_runtime :: "unit py_runtime" where
  "strict_runtime =
     \<lparr>access_ext = (\<lambda>v a. Inl AttributeError),
      convert_ext = (\<lambda>obj c. Inl TypeError),
      format_ext = (\<lambda>obj spec. Inl TypeError)\<rparr>"

section \<open>Predicates and example schedules used in the statements\<close>

text \<open>
  No vacation entry applies to the week: every entry of \<open>vacation_weeks\<close> whose list holds
  the week is passed over by the loop (its person is not in the rotation, or the covering
  name is empty). In particular this holds when no list holds the week.
\<close>

definition no_vacation_match :: "string \<Rightarrow> schedule_data \<Rightarrow> bool" where
  "no_vacation_match week_string sd =
     list_all (\<lambda>(person, weeks).
        week_string \<in> set weeks \<longrightarrow>
          get_vacation_coverage person week_string sd \<in> {Inr None, Inr (Some [])})
       (get_or_empty (vacation_weeks sd))"

text \<open>
  A week identifier of the form \<open>YYYY-W##\<close>, as \<open>get_current_week_string\<close> writes it
  (\<open>f"{year}-W{week:02d}"\<close>) for a four-digit year.
\<close>

definition well_formed_week :: "string \<Rightarrow> bool" where
  "well_formed_week s =
     (case s of
        [y1, y2, y3, y4, dash, w, w1, w2] \<Rightarrow>
          is_digit y1 \<and> is_digit y2 \<and> is_digit y3 \<and> is_digit y4 \<and>
          dash = CHR ''-'' \<and> w = CHR ''W'' \<and> is_digit w1 \<and> is_digit w2
      | _ \<Rightarrow> False)"

text \<open>The fixture \<open>basic_schedule\<close> of \<open>tests/test_rotation.py\<close>.\<close>

definition basic_schedule :: schedule_data where
  "basic_schedule =
     \<lparr>default_rotation = Some [''Esteban'', ''Chema'', ''Adrian'', ''Chito'', ''Vanish'', ''JC''],
      start_week = Some ''2025-W31'',
      schedule_overrides = Some [],
      vacation_weeks = Some [],
      special_messages = Some []\<rparr>"

text \<open>
  After the fixture \<open>schedule_with_overrides\<close> of the tests; its special message is
  written without the leading emoji.
\<close>

definition example_schedule :: schedule_data where
  "example_schedule =
     \<lparr>default_rotation = Some [''Esteban'', ''Chema'', ''Adrian'', ''Chito'', ''Vanish'', ''JC''],
      start_week = Some ''2025-W31'',
      schedule_overrides = Some [(''2025-W32'', ''Adrian''), (''2025-W35'', ''Esteban'')],
      vacation_weeks = Some [(''Chito'', [''2025-W34'']), (''Adrian'', [''2025-W40'', ''2025-W41''])],
      special_messages = Some [(''2025-W52'', ''Holiday week: {name} is responsible!'')]\<rparr>"

text \<open>The schedule of \<open>test_get_vacation_coverage_function\<close>: only a rotation.\<close>

definition abcd_schedule :: schedule_data where
  "abcd_schedule =
     \<lparr>default_rotation = Some [''A'', ''B'', ''C'', ''D''],
      start_week = None, schedule_overrides = None,
      vacation_weeks = None, special_messages = None\<rparr>"

definition rotation_only :: "string list \<Rightarrow> schedule_data" where
  "rotation_only rot =
     \<lparr>default_rotation = Some rot,
      start_week = None, schedule_overrides = None,
      vacation_weeks = None, special_messages = None\<rparr>"

section \<open>The ISO week calendar\<close>

text \<open>
  \<open>get_current_week_string\<close> takes the year and the week from \<open>isocalendar()\<close> and writes
  them as \<open>f"{year}-W{week:02d}"\<close>. \<open>week_string_of_isocalendar\<close> is that last line, for
  the year and week the clock gave.
\<close>

definition week_string_of_isocalendar :: "int \<Rightarrow> int \<Rightarrow> string" where
  "week_string_of_isocalendar year week =
     py_str (PInt year) @ ''-W'' @
     (if 0 \<le> week \<and> week < 10 then CHR ''0'' # py_str (PInt week) else py_str (PInt week))"

text \<open>
  The calendar itself is not part of the repository; the statements that speak of
  calendar weeks use the ISO 8601 rule: a year has 53 weeks when 1 January is a Thursday,
  or a Wednesday in a leap year, which is the test on \<open>iso_p\<close> below; the week after the
  last week of a year is week 1 of the next year.
\<close>

definition iso_p :: "int \<Rightarrow> int" where
  "iso_p y = (y + y div 4 - y div 100 + y div 400) mod 7"

definition iso_weeks_in_year :: "int \<Rightarrow> int" where
  "iso_weeks_in_year y = (if iso_p y = 4 \<or> iso_p (y - 1) = 3 then 53 else 52)"

definition next_iso_week :: "int \<times> int \<Rightarrow> int \<times> int" where
  "next_iso_week yw =
     (case yw of (y, w) \<Rightarrow> if w < iso_weeks_in_year y then (y, w + 1) else (y + 1, 1))"

fun iso_weeks_after :: "nat \<Rightarrow> int \<times> int \<Rightarrow> int \<times> int" where
  "iso_weeks_after 0 yw = yw"
| "iso_weeks_after (Suc n) yw = iso_weeks_after n (next_iso_week yw)"

section \<open>Properties of the resolver\<close>

subsection \<open>Auxiliary facts\<close>

lemma py_index_first:
  "i < length xs \<Longrightarrow> xs ! i \<notin> set (take i xs) \<Longrightarrow> py_index xs (xs ! i) = Inr i"
proof (induction xs arbitrary: i)
  case Nil
  then show ?case by simp
next
  case (Cons y ys)
  show ?case
  proof (cases i)
    case 0
    then show ?thesis by simp
  next
    case (Suc j)
    with Cons.prems have "j < length ys" "ys ! j \<notin> set (take j ys)" "ys ! j \<noteq> y"
      by auto
    with Cons.IH [of j] Suc show ?thesis by simp
  qed
qed


lemma coverage_upd [simp]:
  "get_vacation_coverage p w (sd\<lparr>vacation_weeks := v\<rparr>) = get_vacation_coverage p w sd"
  by (simp add: get_vacation_coverage_def)

lemma vacation_loop_upd [simp]:
  "vacation_loop w (sd\<lparr>vacation_weeks := v\<rparr>) vac = vacation_loop w sd vac"
proof (induction vac)
  case Nil
  show ?case by simp
next
  case (Cons a vac)
  then show ?case
    by (cases a) (simp cong: sum.case_cong option.case_cong if_cong)
qed

lemma default_branch_upd [simp]:
  "default_branch w (sd\<lparr>vacation_weeks := v\<rparr>) = default_branch w sd"
  by (simp add: default_branch_def split: sum.splits option.splits)

lemma vacation_loop_append:
  "vacation_loop w sd (pre @ post) =
     (case vacation_loop w sd pre of Inr None \<Rightarrow> vacation_loop w sd post | r \<Rightarrow> r)"
proof (induction pre)
  case Nil
  show ?case by simp
next
  case (Cons a pre)
  then show ?case
    by (cases a) (simp split: sum.splits option.splits)
qed

lemma vacation_loop_None_iff:
  "vacation_loop w sd vac = Inr None \<longleftrightarrow>
     list_all (\<lambda>(person, weeks). w \<in> set weeks \<longrightarrow>
        get_vacation_coverage person w sd \<in> {Inr None, Inr (Some [])}) vac"
  by (induction vac) (auto split: sum.splits option.splits if_splits)

lemma no_vacation_match_loop:
  "no_vacation_match w sd \<longleftrightarrow>
     vacation_loop w sd (get_or_empty (vacation_weeks sd)) = Inr None"
  by (simp add: no_vacation_match_def vacation_loop_None_iff)

lemma vacation_loop_unlisted:
  "\<forall>(q, qs) \<in> set pre. w \<notin> set qs \<Longrightarrow> vacation_loop w sd pre = Inr None"
  by (induction pre) auto

lemma coverage_non_member:
  "default_rotation sd = Some rot \<Longrightarrow> p \<notin> set rot \<Longrightarrow>
   get_vacation_coverage p w sd = Inr None"
  by (simp add: get_vacation_coverage_def)

lemma coverage_first_index:
  "default_rotation sd = Some rot \<Longrightarrow> i < length rot \<Longrightarrow> rot ! i \<notin> set (take i rot) \<Longrightarrow>
   get_vacation_coverage (rot ! i) w sd = Inr (Some (rot ! ((i + 1) mod length rot)))"
  by (simp add: get_vacation_coverage_def py_index_first)


lemma grp_vacation:
  "vacation_loop w sd (get_or_empty (vacation_weeks sd)) = Inr (Some c) \<Longrightarrow>
   get_responsible_person w sd = Inr (c, map_of (get_or_empty (special_messages sd)) w)"
  by (simp add: get_responsible_person_def)

lemma grp_override:
  "no_vacation_match w sd \<Longrightarrow> map_of (get_or_empty (schedule_overrides sd)) w = Some q \<Longrightarrow>
   get_responsible_person w sd = Inr (q, map_of (get_or_empty (special_messages sd)) w)"
  by (simp add: get_responsible_person_def no_vacation_match_loop)

lemma grp_default:
  "no_vacation_match w sd \<Longrightarrow> map_of (get_or_empty (schedule_overrides sd)) w = None \<Longrightarrow>
   get_responsible_person w sd =
     (case default_branch w sd of Inl e \<Rightarrow> Inl e
      | Inr p \<Rightarrow> Inr (p, map_of (get_or_empty (special_messages sd)) w))"
  by (simp add: get_responsible_person_def no_vacation_match_loop)

lemma default_branch_value:
  assumes "get_total_weeks_since_epoch w = Inr t" and "start_week sd = Some sw"
    and "get_total_weeks_since_epoch sw = Inr t0" and "default_rotation sd = Some rot"
    and "rot \<noteq> []"
  shows "default_branch w sd = Inr (rot ! nat ((t - t0) mod int (length rot)))"
  using assms by (simp add: default_branch_def)


lemma total_weeks_parsed:
  "py_split ''-W'' s = [ys, ws] \<Longrightarrow> py_int ys = Inr y \<Longrightarrow> py_int ws = Inr wk \<Longrightarrow>
   get_total_weeks_since_epoch s = Inr ((y - 2000) * 52 + wk)"
  by (simp add: get_total_weeks_since_epoch_def)

text \<open>Every week identifier of the form \<open>YYYY-W##\<close> parses.\<close>

lemma digit_not_special:
  "is_digit c \<Longrightarrow> c \<noteq> CHR ''-'' \<and> c \<noteq> CHR ''+'' \<and> c \<noteq> CHR ''_'' \<and> \<not> is_space c"
  by (auto simp: is_digit_def is_space_def Let_def)

lemma py_int_digits4:
  assumes "is_digit a" "is_digit b" "is_digit c" "is_digit d"
  shows "py_int [a, b, c, d] =
     Inr (((digit_val a * 10 + digit_val b) * 10 + digit_val c) * 10 + digit_val d)"
  using assms digit_not_special [of a] digit_not_special [of d]
  by (simp add: py_int_def py_strip_def int_max_str_digits_def)

lemma py_int_digits2:
  assumes "is_digit a" "is_digit b"
  shows "py_int [a, b] = Inr (digit_val a * 10 + digit_val b)"
  using assms digit_not_special [of a] digit_not_special [of b]
  by (simp add: py_int_def py_strip_def int_max_str_digits_def)

lemma split_well_formed:
  assumes "is_digit a" "is_digit b" "is_digit c" "is_digit d" "is_digit e" "is_digit f"
  shows "py_split ''-W'' [a, b, c, d, CHR ''-'', CHR ''W'', e, f] = [[a, b, c, d], [e, f]]"
  using digit_not_special [OF assms(1)] digit_not_special [OF assms(2)]
    digit_not_special [OF assms(3)] digit_not_special [OF assms(4)]
    digit_not_special [OF assms(5)] digit_not_special [OF assms(6)]
  by (simp add: py_split_def)

lemma well_formed_week_parses:
  assumes "well_formed_week s"
  shows "\<exists>t. get_total_weeks_since_epoch s = Inr t"
proof -
  from assms obtain a b c d e f where s: "s = [a, b, c, d, CHR ''-'', CHR ''W'', e, f]"
    and dg: "is_digit a" "is_digit b" "is_digit c" "is_digit d" "is_digit e" "is_digit f"
    by (auto simp: well_formed_week_def split: list.splits)
  show ?thesis
    unfolding s get_total_weeks_since_epoch_def
    by (simp add: split_well_formed [OF dg] py_int_digits4 [OF dg(1-4)] py_int_digits2 [OF dg(5,6)])
qed

subsection \<open>Vacation coverage\<close>

text \<open>
  C5, as amended. \<open>get_vacation_coverage\<close> finds the vacationing person by name, so the
  covering person is the entry after the \<^emph>\<open>first\<close> occurrence of that name: for an index
  \<open>i\<close> at which the name occurs for the first time, the coverage is the entry at
  \<open>(i + 1) mod len(rotation)\<close>; when the last entry's name occurs nowhere earlier, the
  coverage is \<open>rotation[0]\<close>; and \<open>get_vacation_coverage("D", week, {default_rotation:
  [A, B, C, D]})\<close> is \<open>"A"\<close>.
\<close>

theorem vacation_coverage_wraps:
  "(default_rotation sd = Some rot \<longrightarrow> i < length rot \<longrightarrow> rot ! i \<notin> set (take i rot) \<longrightarrow>
      get_vacation_coverage (rot ! i) w sd = Inr (Some (rot ! ((i + 1) mod length rot))))
   \<and> (default_rotation sd = Some rot \<longrightarrow> rot \<noteq> [] \<longrightarrow> last rot \<notin> set (butlast rot) \<longrightarrow>
      get_vacation_coverage (last rot) w sd = Inr (Some (rot ! 0)))
   \<and> get_vacation_coverage ''D'' w abcd_schedule = Inr (Some ''A'')"
proof (intro conjI impI)
  assume "default_rotation sd = Some rot" "i < length rot" "rot ! i \<notin> set (take i rot)"
  then show "get_vacation_coverage (rot ! i) w sd = Inr (Some (rot ! ((i + 1) mod length rot)))"
    by (rule coverage_first_index)
next
  assume rot: "default_rotation sd = Some rot" and ne: "rot \<noteq> []"
    and l: "last rot \<notin> set (butlast rot)"
  let ?i = "length rot - 1"
  have i: "?i < length rot" using ne by simp
  have nth: "rot ! ?i = last rot" using ne by (simp add: last_conv_nth)
  have "take ?i rot = butlast rot" by (simp add: butlast_conv_take)
  with l nth have "rot ! ?i \<notin> set (take ?i rot)" by simp
  from coverage_first_index [OF rot i this, of w] nth ne
  show "get_vacation_coverage (last rot) w sd = Inr (Some (rot ! 0))" by simp
next
  show "get_vacation_coverage ''D'' w abcd_schedule = Inr (Some ''A'')"
    by (simp add: get_vacation_coverage_def abcd_schedule_def)
qed

theorem vacation_coverage_wraps_witness:
  "default_rotation abcd_schedule = Some [''A'', ''B'', ''C'', ''D'']
   \<and> (3::nat) < length [''A'', ''B'', ''C'', ''D'']
   \<and> [''A'', ''B'', ''C'', ''D''] ! 3 \<notin> set (take 3 [''A'', ''B'', ''C'', ''D''])
   \<and> last [''A'', ''B'', ''C'', ''D''] \<notin> set (butlast [''A'', ''B'', ''C'', ''D''])
   \<and> get_vacation_coverage ([''A'', ''B'', ''C'', ''D''] ! 3) ''2025-W01'' abcd_schedule
       = Inr (Some ''A'')
   \<and> get_vacation_coverage (last [''A'', ''B'', ''C'', ''D'']) ''2025-W01'' abcd_schedule
       = Inr (Some ''A'')"
proof -
  have h1: "default_rotation abcd_schedule = Some [''A'', ''B'', ''C'', ''D'']"
    by (simp add: abcd_schedule_def)
  have h2: "(3::nat) < length [''A'', ''B'', ''C'', ''D'']" by simp
  have h3: "[''A'', ''B'', ''C'', ''D''] ! 3 \<notin> set (take 3 [''A'', ''B'', ''C'', ''D''])"
    by (simp add: numeral_3_eq_3)
  have h4: "last [''A'', ''B'', ''C'', ''D''] \<notin> set (butlast [''A'', ''B'', ''C'', ''D''])"
    by simp
  show ?thesis
    using h1 h2 h3 h4
      vacation_coverage_wraps [of abcd_schedule "[''A'', ''B'', ''C'', ''D'']" 3 "''2025-W01''"]
    by (simp add: numeral_3_eq_3)
qed

text \<open>
  The claim as stated fails where a name occurs twice: in the rotation \<open>[D, A, D]\<close> the
  last person, at index 2, is covered by \<open>A\<close> (the entry after the first \<open>D\<close>), not by
  \<open>rotation[(2 + 1) mod 3] = rotation[0] = D\<close>.
\<close>

theorem vacation_coverage_wraps_counterexample:
  "[''D'', ''A'', ''D''] ! 2 = ''D''
   \<and> get_vacation_coverage ''D'' ''2025-W01'' (rotation_only [''D'', ''A'', ''D''])
       = Inr (Some ''A'')
   \<and> [''D'', ''A'', ''D''] ! ((2 + 1) mod length [''D'', ''A'', ''D'']) = ''D''"
  by (simp add: get_vacation_coverage_def rotation_only_def numeral_2_eq_2)

text \<open>
  C10. An entry of \<open>vacation_weeks\<close> whose person is not in \<open>default_rotation\<close> is passed
  over: wherever it stands in the dictionary, and whether or not its list holds the week,
  \<open>get_responsible_person\<close> gives what it gives on the schedule without that entry
  (the later entries are still scanned, then the override and the rotation).
\<close>

theorem vacation_of_non_member_skipped:
  assumes "default_rotation sd = Some rot" and "person \<notin> set rot"
    and "vacation_weeks sd = Some (pre @ (person, weeks) # post)"
  shows "get_responsible_person w sd =
         get_responsible_person w (sd\<lparr>vacation_weeks := Some (pre @ post)\<rparr>)"
proof -
  have "vacation_loop w sd ((person, weeks) # post) = vacation_loop w sd post"
    using assms(1,2) by (simp add: coverage_non_member)
  then have "vacation_loop w sd (pre @ (person, weeks) # post) = vacation_loop w sd (pre @ post)"
    by (simp only: vacation_loop_append [of w sd pre])
  then show ?thesis
    using assms(3)
    by (simp add: get_responsible_person_def get_or_empty_def
          cong: sum.case_cong option.case_cong)
qed

theorem vacation_of_non_member_skipped_witness:
  "get_responsible_person ''2025-W34''
     (example_schedule\<lparr>vacation_weeks :=
        Some ([] @ (''Zed'', [''2025-W34'']) # [(''Chito'', [''2025-W34''])])\<rparr>)
   = Inr (''Vanish'', None)
   \<and> get_responsible_person ''2025-W32''
     (example_schedule\<lparr>vacation_weeks :=
        Some ([] @ (''Zed'', [''2025-W32'']) # [(''Chito'', [''2025-W34''])])\<rparr>)
   = Inr (''Adrian'', None)"
proof -
  let ?rot = "[''Esteban'', ''Chema'', ''Adrian'', ''Chito'', ''Vanish'', ''JC'']"
  let ?post = "[(''Chito'', [''2025-W34''])]"
  let ?s1 = "example_schedule\<lparr>vacation_weeks := Some ([] @ (''Zed'', [''2025-W34'']) # ?post)\<rparr>"
  let ?s2 = "example_schedule\<lparr>vacation_weeks := Some ([] @ (''Zed'', [''2025-W32'']) # ?post)\<rparr>"
  have r1: "default_rotation ?s1 = Some ?rot" and r2: "default_rotation ?s2 = Some ?rot"
    by (simp_all add: example_schedule_def)
  have z: "''Zed'' \<notin> set ?rot" by simp
  have v1: "vacation_weeks ?s1 = Some ([] @ (''Zed'', [''2025-W34'']) # ?post)"
    and v2: "vacation_weeks ?s2 = Some ([] @ (''Zed'', [''2025-W32'']) # ?post)"
    by simp_all
  have e1: "get_responsible_person ''2025-W34'' (?s1\<lparr>vacation_weeks := Some ([] @ ?post)\<rparr>)
      = Inr (''Vanish'', None)"
    by code_simp
  have e2: "get_responsible_person ''2025-W32'' (?s2\<lparr>vacation_weeks := Some ([] @ ?post)\<rparr>)
      = Inr (''Adrian'', None)"
    by code_simp
  show ?thesis
    using vacation_of_non_member_skipped [OF r1 z v1, of "''2025-W34''"]
      vacation_of_non_member_skipped [OF r2 z v2, of "''2025-W32''"] e1 e2
    by (simp only:)
qed

subsection \<open>The special message\<close>

text \<open>
  C6. Whatever branch produced the person, the second component of the result of
  \<open>get_responsible_person\<close> is \<open>special_messages.get(week)\<close> (with \<open>{}\<close> for a missing
  \<open>special_messages\<close>).
\<close>

theorem special_message_independent:
  "get_responsible_person w sd = Inr (p, m) \<Longrightarrow>
   m = map_of (get_or_empty (special_messages sd)) w"
  by (auto simp: get_responsible_person_def Let_def split: sum.splits option.splits)

theorem special_message_independent_witness:
  "get_responsible_person ''2025-W52'' example_schedule
     = Inr (''Chito'', Some ''Holiday week: {name} is responsible!'')
   \<and> Some ''Holiday week: {name} is responsible!''
     = map_of (get_or_empty (special_messages example_schedule)) ''2025-W52''"
proof -
  have h: "get_responsible_person ''2025-W52'' example_schedule
     = Inr (''Chito'', Some ''Holiday week: {name} is responsible!'')"
    by code_simp
  show ?thesis
    using h special_message_independent [OF h] by simp
qed

subsection \<open>Precedence of the three branches\<close>

text \<open>
  C1, as amended. The vacation check comes first, then the override, then the rotation.
  For every week \<open>w\<close>, let \<open>(person, weeks)\<close> be the first entry of \<open>vacation_weeks\<close>,
  in iteration order, whose list holds \<open>w\<close>. If \<open>person\<close> is in \<open>default_rotation\<close>
  (first at index \<open>i\<close>) and the next entry of the rotation is a non-empty name, the
  result is that next entry, whether or not \<open>w\<close> is a key of \<open>schedule_overrides\<close>.
  When no vacation entry applies and \<open>w\<close> is a key of \<open>schedule_overrides\<close>, the result
  is the mapped person.
\<close>

theorem precedence_vacation_override:
  "(vacation_weeks sd = Some (pre @ (person, weeks) # post) \<longrightarrow>
    (\<forall>(q, qs) \<in> set pre. w \<notin> set qs) \<longrightarrow> w \<in> set weeks \<longrightarrow>
    default_rotation sd = Some rot \<longrightarrow> i < length rot \<longrightarrow> rot ! i = person \<longrightarrow>
    person \<notin> set (take i rot) \<longrightarrow> rot ! ((i + 1) mod length rot) \<noteq> [] \<longrightarrow>
    get_responsible_person w sd =
      Inr (rot ! ((i + 1) mod length rot), map_of (get_or_empty (special_messages sd)) w))
   \<and> (no_vacation_match w sd \<longrightarrow>
        map_of (get_or_empty (schedule_overrides sd)) w = Some q \<longrightarrow>
        get_responsible_person w sd = Inr (q, map_of (get_or_empty (special_messages sd)) w))"
proof (intro conjI impI)
  assume vac: "vacation_weeks sd = Some (pre @ (person, weeks) # post)"
    and pre: "\<forall>(q, qs) \<in> set pre. w \<notin> set qs" and w: "w \<in> set weeks"
    and rot: "default_rotation sd = Some rot" and i: "i < length rot" "rot ! i = person"
    and fst: "person \<notin> set (take i rot)" and ne: "rot ! ((i + 1) mod length rot) \<noteq> []"
  have cov: "get_vacation_coverage person w sd = Inr (Some (rot ! ((i + 1) mod length rot)))"
    using coverage_first_index [OF rot i(1), of w] i(2) fst by simp
  have "vacation_loop w sd ((person, weeks) # post) = Inr (Some (rot ! ((i + 1) mod length rot)))"
    using w cov ne by simp
  then have "vacation_loop w sd (pre @ (person, weeks) # post)
      = Inr (Some (rot ! ((i + 1) mod length rot)))"
    by (simp add: vacation_loop_append vacation_loop_unlisted [OF pre])
  then show "get_responsible_person w sd =
      Inr (rot ! ((i + 1) mod length rot), map_of (get_or_empty (special_messages sd)) w)"
    using vac by (simp add: grp_vacation get_or_empty_def)
next
  assume "no_vacation_match w sd" "map_of (get_or_empty (schedule_overrides sd)) w = Some q"
  then show "get_responsible_person w sd = Inr (q, map_of (get_or_empty (special_messages sd)) w)"
    by (rule grp_override)
qed

text \<open>
  The witness: in the example schedule with week 34 also overridden to \<open>JC\<close>, Chito's
  vacation in week 34 wins and Vanish covers; week 32, with no vacation, goes to the
  override.
\<close>

theorem precedence_vacation_override_witness:
  "get_responsible_person ''2025-W34''
     (example_schedule\<lparr>schedule_overrides := Some [(''2025-W34'', ''JC''), (''2025-W32'', ''Adrian'')]\<rparr>)
     = Inr (''Vanish'', None)
   \<and> get_responsible_person ''2025-W32''
     (example_schedule\<lparr>schedule_overrides := Some [(''2025-W34'', ''JC''), (''2025-W32'', ''Adrian'')]\<rparr>)
     = Inr (''Adrian'', None)"
proof -
  let ?rot = "[''Esteban'', ''Chema'', ''Adrian'', ''Chito'', ''Vanish'', ''JC'']"
  let ?post = "[(''Adrian'', [''2025-W40'', ''2025-W41''])]"
  let ?s = "example_schedule\<lparr>schedule_overrides :=
              Some [(''2025-W34'', ''JC''), (''2025-W32'', ''Adrian'')]\<rparr>"
  have v: "vacation_weeks ?s = Some ([] @ (''Chito'', [''2025-W34'']) # ?post)"
    by (simp add: example_schedule_def)
  have p: "\<forall>(q, qs) \<in> set ([] :: (string \<times> string list) list). ''2025-W34'' \<notin> set qs"
    by simp
  have w: "''2025-W34'' \<in> set [''2025-W34'']" by simp
  have r: "default_rotation ?s = Some ?rot" by (simp add: example_schedule_def)
  have i1: "(3::nat) < length ?rot" by simp
  have i2: "?rot ! 3 = ''Chito''" by simp
  have i3: "''Chito'' \<notin> set (take 3 ?rot)" by code_simp
  have c: "?rot ! ((3 + 1) mod length ?rot) = ''Vanish''" by simp
  have i4: "?rot ! ((3 + 1) mod length ?rot) \<noteq> []" by (simp only: c) simp
  have n: "no_vacation_match ''2025-W32'' ?s" by code_simp
  have ov: "map_of (get_or_empty (schedule_overrides ?s)) ''2025-W32'' = Some ''Adrian''"
    by (simp add: get_or_empty_def)
  have sp1: "map_of (get_or_empty (special_messages ?s)) ''2025-W34'' = None"
    by (simp add: get_or_empty_def example_schedule_def)
  have sp2: "map_of (get_or_empty (special_messages ?s)) ''2025-W32'' = None"
    by (simp add: get_or_empty_def example_schedule_def)
  note first = precedence_vacation_override
      [of ?s "[]" "''Chito''" "[''2025-W34'']" ?post "''2025-W34''" ?rot 3 "''Adrian''",
       THEN conjunct1, THEN mp, OF v, THEN mp, OF p, THEN mp, OF w, THEN mp, OF r,
       THEN mp, OF i1, THEN mp, OF i2, THEN mp, OF i3, THEN mp, OF i4]
  note second = precedence_vacation_override
      [of ?s "[]" "''Chito''" "[''2025-W34'']" ?post "''2025-W32''" ?rot 3 "''Adrian''",
       THEN conjunct2, THEN mp, OF n, THEN mp, OF ov]
  have a: "get_responsible_person ''2025-W34'' ?s = Inr (''Vanish'', None)"
    using first by (simp only: sp1 c)
  have b: "get_responsible_person ''2025-W32'' ?s = Inr (''Adrian'', None)"
    using second by (simp only: sp2)
  from a b show ?thesis by (rule conjI)
qed

text \<open>
  The claim as stated fails when two members of the rotation are on vacation in the
  same overridden week: only the first entry is honoured. Here Esteban and Chema are
  both on vacation in week 33, which is overridden to \<open>JC\<close>; the result is Esteban's
  coverage (Chema), not Chema's coverage (Adrian). It also fails when the covering name
  is the empty string, which \<open>if coverage:\<close> passes over: with the rotation
  \<open>[Esteban, ""]\<close> the override is returned.
\<close>

theorem precedence_vacation_override_counterexample:
  "get_responsible_person ''2025-W33''
     (basic_schedule\<lparr>schedule_overrides := Some [(''2025-W33'', ''JC'')],
        vacation_weeks := Some [(''Esteban'', [''2025-W33'']), (''Chema'', [''2025-W33''])]\<rparr>)
     = Inr (''Chema'', None)
   \<and> get_vacation_coverage ''Chema'' ''2025-W33''
     (basic_schedule\<lparr>schedule_overrides := Some [(''2025-W33'', ''JC'')],
        vacation_weeks := Some [(''Esteban'', [''2025-W33'']), (''Chema'', [''2025-W33''])]\<rparr>)
     = Inr (Some ''Adrian'')
   \<and> get_responsible_person ''2025-W33''
     (basic_schedule\<lparr>default_rotation := Some [''Esteban'', []],
        schedule_overrides := Some [(''2025-W33'', ''JC'')],
        vacation_weeks := Some [(''Esteban'', [''2025-W33''])]\<rparr>)
     = Inr (''JC'', None)
   \<and> get_vacation_coverage ''Esteban'' ''2025-W33''
     (basic_schedule\<lparr>default_rotation := Some [''Esteban'', []],
        schedule_overrides := Some [(''2025-W33'', ''JC'')],
        vacation_weeks := Some [(''Esteban'', [''2025-W33''])]\<rparr>)
     = Inr (Some [])"
  by code_simp

subsection \<open>Totality and the person returned\<close>




subsection \<open>The default rotation\<close>

text \<open>
  C3. For every week \<open>w\<close> that no vacation entry applies to and that has no override,
  where \<open>w\<close> parses to year \<open>y\<close> and week \<open>wk\<close>, \<open>start_week\<close> parses to \<open>y0\<close> and
  \<open>wk0\<close>, and the rotation is not empty: \<open>get_responsible_person\<close> returns
  \<open>rotation[index]\<close> with \<open>index = (total_weeks(y, wk) - total_weeks(y0, wk0)) mod
  len(rotation)\<close> and \<open>total_weeks(y, w) = (y - 2000) * 52 + w\<close>; the index lies in
  \<open>[0, len)\<close>, also for weeks before \<open>start_week\<close>. On the basic schedule, weeks 31 to
  36 of 2025 map to the six people in order and week 37 to Esteban again.
\<close>

theorem default_rotation_index:
  "(py_split ''-W'' w = [ys, ws] \<longrightarrow> py_int ys = Inr y \<longrightarrow> py_int ws = Inr wk \<longrightarrow>
    start_week sd = Some sw \<longrightarrow>
    py_split ''-W'' sw = [ys0, ws0] \<longrightarrow> py_int ys0 = Inr y0 \<longrightarrow> py_int ws0 = Inr wk0 \<longrightarrow>
    default_rotation sd = Some rot \<longrightarrow> rot \<noteq> [] \<longrightarrow>
    no_vacation_match w sd \<longrightarrow> map_of (get_or_empty (schedule_overrides sd)) w = None \<longrightarrow>
    (let index = (((y - 2000) * 52 + wk) - ((y0 - 2000) * 52 + wk0)) mod int (length rot)
     in 0 \<le> index \<and> index < int (length rot) \<and>
        get_responsible_person w sd =
          Inr (rot ! nat index, map_of (get_or_empty (special_messages sd)) w)))
   \<and> map (\<lambda>w. get_responsible_person w basic_schedule)
        [''2025-W31'', ''2025-W32'', ''2025-W33'', ''2025-W34'', ''2025-W35'', ''2025-W36'',
         ''2025-W37'']
      = [Inr (''Esteban'', None), Inr (''Chema'', None), Inr (''Adrian'', None),
         Inr (''Chito'', None), Inr (''Vanish'', None), Inr (''JC'', None),
         Inr (''Esteban'', None)]"
proof (intro conjI impI)
  assume w: "py_split ''-W'' w = [ys, ws]" "py_int ys = Inr y" "py_int ws = Inr wk"
    and sw: "start_week sd = Some sw"
    and s: "py_split ''-W'' sw = [ys0, ws0]" "py_int ys0 = Inr y0" "py_int ws0 = Inr wk0"
    and rot: "default_rotation sd = Some rot" and ne: "rot \<noteq> []"
    and nv: "no_vacation_match w sd"
    and ov: "map_of (get_or_empty (schedule_overrides sd)) w = None"
  let ?d = "((y - 2000) * 52 + wk) - ((y0 - 2000) * 52 + wk0)"
  have tw: "get_total_weeks_since_epoch w = Inr ((y - 2000) * 52 + wk)"
    using w by (rule total_weeks_parsed)
  have ts: "get_total_weeks_since_epoch sw = Inr ((y0 - 2000) * 52 + wk0)"
    using s by (rule total_weeks_parsed)
  have len: "0 < int (length rot)" using ne by simp
  have lo: "0 \<le> ?d mod int (length rot)" using len by (rule pos_mod_sign)
  have hi: "?d mod int (length rot) < int (length rot)" using len by (rule pos_mod_bound)
  have "get_responsible_person w sd =
      Inr (rot ! nat (?d mod int (length rot)), map_of (get_or_empty (special_messages sd)) w)"
    using nv ov by (simp add: grp_default default_branch_value [OF tw sw ts rot ne])
  with lo hi
  show "let index = ?d mod int (length rot)
     in 0 \<le> index \<and> index < int (length rot) \<and>
        get_responsible_person w sd =
          Inr (rot ! nat index, map_of (get_or_empty (special_messages sd)) w)"
    by (simp only: Let_def simp_thms)
next
  show "map (\<lambda>w. get_responsible_person w basic_schedule)
        [''2025-W31'', ''2025-W32'', ''2025-W33'', ''2025-W34'', ''2025-W35'', ''2025-W36'',
         ''2025-W37'']
      = [Inr (''Esteban'', None), Inr (''Chema'', None), Inr (''Adrian'', None),
         Inr (''Chito'', None), Inr (''Vanish'', None), Inr (''JC'', None),
         Inr (''Esteban'', None)]"
    by code_simp
qed

text \<open>
  The witness is the week before \<open>start_week\<close>: the offset is \<open>-1\<close>, the floored
  remainder is 5, and the last person of the rotation is responsible.
\<close>

theorem default_rotation_index_witness:
  "(((2025 - 2000) * 52 + 30) - ((2025 - 2000) * 52 + 31)) mod
      int (length [''Esteban'', ''Chema'', ''Adrian'', ''Chito'', ''Vanish'', ''JC'']) = 5
   \<and> get_responsible_person ''2025-W30'' basic_schedule = Inr (''JC'', None)"
proof -
  let ?rot = "[''Esteban'', ''Chema'', ''Adrian'', ''Chito'', ''Vanish'', ''JC'']"
  have w: "py_split ''-W'' ''2025-W30'' = [''2025'', ''30'']" by code_simp
  have y: "py_int ''2025'' = Inr 2025" by code_simp
  have wk: "py_int ''30'' = Inr 30" by code_simp
  have sw: "start_week basic_schedule = Some ''2025-W31''" by (simp add: basic_schedule_def)
  have s: "py_split ''-W'' ''2025-W31'' = [''2025'', ''31'']" by code_simp
  have wk0: "py_int ''31'' = Inr 31" by code_simp
  have r: "default_rotation basic_schedule = Some ?rot" by (simp add: basic_schedule_def)
  have ne: "?rot \<noteq> []" by simp
  have nv: "no_vacation_match ''2025-W30'' basic_schedule" by code_simp
  have ov: "map_of (get_or_empty (schedule_overrides basic_schedule)) ''2025-W30'' = None"
    by (simp add: get_or_empty_def basic_schedule_def)
  have sp: "map_of (get_or_empty (special_messages basic_schedule)) ''2025-W30'' = None"
    by (simp add: get_or_empty_def basic_schedule_def)
  have ix: "(((2025 - 2000) * 52 + 30) - ((2025 - 2000) * 52 + 31)) mod int (length ?rot) = 5"
    by simp
  have el: "?rot ! nat 5 = ''JC''" by simp
  note inst = default_rotation_index
      [of "''2025-W30''" "''2025''" "''30''" 2025 30 basic_schedule "''2025-W31''"
          "''2025''" "''31''" 2025 31 ?rot,
       THEN conjunct1, THEN mp, OF w, THEN mp, OF y, THEN mp, OF wk, THEN mp, OF sw,
       THEN mp, OF s, THEN mp, OF y, THEN mp, OF wk0, THEN mp, OF r, THEN mp, OF ne,
       THEN mp, OF nv, THEN mp, OF ov]
  have "get_responsible_person ''2025-W30'' basic_schedule = Inr (''JC'', None)"
    using inst by (simp only: Let_def ix sp el simp_thms)
  with ix show ?thesis by (rule conjI)
qed

subsection \<open>Periodicity\<close>

lemma iso_weeks_after_same_year:
  "w + int n \<le> iso_weeks_in_year y \<Longrightarrow> iso_weeks_after n (y, w) = (y, w + int n)"
proof (induction n arbitrary: w)
  case 0
  show ?case by simp
next
  case (Suc n)
  then have "w < iso_weeks_in_year y" and "w + 1 + int n \<le> iso_weeks_in_year y"
    by simp_all
  with Suc.IH [of "w + 1"] show ?case
    by (simp add: next_iso_week_def add.assoc)
qed

lemma periodic_in_linear_count:
  assumes "get_total_weeks_since_epoch w = Inr t"
    and "get_total_weeks_since_epoch w' = Inr (t + int (length rot))"
    and "default_rotation sd = Some rot"
    and "no_vacation_match w sd" and "no_vacation_match w' sd"
    and "map_of (get_or_empty (schedule_overrides sd)) w = None"
    and "map_of (get_or_empty (schedule_overrides sd)) w' = None"
  shows "map_sum id fst (get_responsible_person w sd)
       = map_sum id fst (get_responsible_person w' sd)"
proof -
  have per: "(t + int (length rot) - x) mod int (length rot) = (t - x) mod int (length rot)"
    for x
  proof -
    have "t + int (length rot) - x = (t - x) + int (length rot)" by simp
    then show ?thesis by (simp only: mod_add_self2)
  qed
  have "default_branch w sd = default_branch w' sd"
    using assms(1-3) by (simp add: default_branch_def per split: option.splits sum.splits)
  then show ?thesis
    using assms(4-7) by (simp add: grp_default split: sum.splits)
qed

text \<open>
  C4, as amended. Periodicity holds in the week count of the code,
  \<open>total_weeks(y, w) = (y - 2000) * 52 + w\<close>: if \<open>w'\<close> lies \<open>len(default_rotation)\<close>
  counted weeks after \<open>w\<close>, and neither week has an override or a vacation entry that
  applies, then \<open>get_responsible_person\<close> gives the same person for both weeks (or fails
  with the same error for both, when \<open>start_week\<close> is missing or does not parse, or the
  rotation is empty). In particular this holds when \<open>w'\<close> lies \<open>len(default_rotation)\<close>
  ISO calendar weeks after \<open>w\<close> and the ISO year of \<open>w\<close> does not end in between.
\<close>

theorem rotation_periodic:
  "(get_total_weeks_since_epoch w = Inr t \<longrightarrow>
    get_total_weeks_since_epoch w' = Inr (t + int (length rot)) \<longrightarrow>
    default_rotation sd = Some rot \<longrightarrow>
    no_vacation_match w sd \<longrightarrow> no_vacation_match w' sd \<longrightarrow>
    map_of (get_or_empty (schedule_overrides sd)) w = None \<longrightarrow>
    map_of (get_or_empty (schedule_overrides sd)) w' = None \<longrightarrow>
    map_sum id fst (get_responsible_person w sd)
      = map_sum id fst (get_responsible_person w' sd))
   \<and> (py_split ''-W'' w = [ys, ws] \<longrightarrow> py_int ys = Inr y \<longrightarrow> py_int ws = Inr wk \<longrightarrow>
    py_split ''-W'' w' = [ys', ws'] \<longrightarrow> py_int ys' = Inr y' \<longrightarrow> py_int ws' = Inr wk' \<longrightarrow>
    default_rotation sd = Some rot \<longrightarrow>
    iso_weeks_after (length rot) (y, wk) = (y', wk') \<longrightarrow>
    wk + int (length rot) \<le> iso_weeks_in_year y \<longrightarrow>
    no_vacation_match w sd \<longrightarrow> no_vacation_match w' sd \<longrightarrow>
    map_of (get_or_empty (schedule_overrides sd)) w = None \<longrightarrow>
    map_of (get_or_empty (schedule_overrides sd)) w' = None \<longrightarrow>
    map_sum id fst (get_responsible_person w sd)
      = map_sum id fst (get_responsible_person w' sd))"
proof (intro conjI impI)
  assume "get_total_weeks_since_epoch w = Inr t"
    "get_total_weeks_since_epoch w' = Inr (t + int (length rot))"
    "default_rotation sd = Some rot"
    "no_vacation_match w sd" "no_vacation_match w' sd"
    "map_of (get_or_empty (schedule_overrides sd)) w = None"
    "map_of (get_or_empty (schedule_overrides sd)) w' = None"
  then show "map_sum id fst (get_responsible_person w sd)
      = map_sum id fst (get_responsible_person w' sd)"
    by (rule periodic_in_linear_count)
next
  assume w: "py_split ''-W'' w = [ys, ws]" "py_int ys = Inr y" "py_int ws = Inr wk"
    and w': "py_split ''-W'' w' = [ys', ws']" "py_int ys' = Inr y'" "py_int ws' = Inr wk'"
    and rot: "default_rotation sd = Some rot"
    and after: "iso_weeks_after (length rot) (y, wk) = (y', wk')"
    and same: "wk + int (length rot) \<le> iso_weeks_in_year y"
    and rest: "no_vacation_match w sd" "no_vacation_match w' sd"
      "map_of (get_or_empty (schedule_overrides sd)) w = None"
      "map_of (get_or_empty (schedule_overrides sd)) w' = None"
  from iso_weeks_after_same_year [OF same] after
  have yw: "y' = y" "wk' = wk + int (length rot)" by simp_all
  have t: "get_total_weeks_since_epoch w = Inr ((y - 2000) * 52 + wk)"
    using w by (rule total_weeks_parsed)
  have "get_total_weeks_since_epoch w' = Inr ((y' - 2000) * 52 + wk')"
    using w' by (rule total_weeks_parsed)
  then have t': "get_total_weeks_since_epoch w' = Inr ((y - 2000) * 52 + wk + int (length rot))"
    by (simp add: yw)
  from t t' rot rest
  show "map_sum id fst (get_responsible_person w sd)
      = map_sum id fst (get_responsible_person w' sd)"
    by (rule periodic_in_linear_count)
qed

text \<open>
  The witness of the first part crosses the end of 2025, a year of 52 weeks: with six
  people, week 50 of 2025 and week 4 of 2026 are six counted weeks apart and both fall
  to Chema. The witness of the second part stays inside 2025: weeks 40 and 46 both fall
  to Chito.
\<close>

theorem rotation_periodic_witness:
  "map_sum id fst (get_responsible_person ''2025-W50'' basic_schedule) = Inr ''Chema''
   \<and> map_sum id fst (get_responsible_person ''2026-W04'' basic_schedule) = Inr ''Chema''
   \<and> iso_weeks_after 6 (2025, 40) = (2025, 46)
   \<and> map_sum id fst (get_responsible_person ''2025-W40'' basic_schedule) = Inr ''Chito''
   \<and> map_sum id fst (get_responsible_person ''2025-W46'' basic_schedule) = Inr ''Chito''"
proof -
  let ?rot = "[''Esteban'', ''Chema'', ''Adrian'', ''Chito'', ''Vanish'', ''JC'']"
  have t: "get_total_weeks_since_epoch ''2025-W50'' = Inr 1350" by code_simp
  have t': "get_total_weeks_since_epoch ''2026-W04'' = Inr (1350 + int (length ?rot))"
    by code_simp
  have r: "default_rotation basic_schedule = Some ?rot" by (simp add: basic_schedule_def)
  have nv: "no_vacation_match ''2025-W50'' basic_schedule" by code_simp
  have nv': "no_vacation_match ''2026-W04'' basic_schedule" by code_simp
  have ov: "map_of (get_or_empty (schedule_overrides basic_schedule)) ''2025-W50'' = None"
    by (simp add: get_or_empty_def basic_schedule_def)
  have ov': "map_of (get_or_empty (schedule_overrides basic_schedule)) ''2026-W04'' = None"
    by (simp add: get_or_empty_def basic_schedule_def)
  have a: "map_sum id fst (get_responsible_person ''2025-W50'' basic_schedule) = Inr ''Chema''"
    by code_simp
  note first = rotation_periodic
      [of "''2025-W50''" 1350 "''2026-W04''" ?rot basic_schedule,
       THEN conjunct1, THEN mp, OF t, THEN mp, OF t', THEN mp, OF r, THEN mp, OF nv,
       THEN mp, OF nv', THEN mp, OF ov, THEN mp, OF ov']
  from first a
  have b: "map_sum id fst (get_responsible_person ''2026-W04'' basic_schedule) = Inr ''Chema''"
    by (simp only:)
  have s: "py_split ''-W'' ''2025-W40'' = [''2025'', ''40'']" by code_simp
  have s': "py_split ''-W'' ''2025-W46'' = [''2025'', ''46'']" by code_simp
  have y: "py_int ''2025'' = Inr 2025" by code_simp
  have k: "py_int ''40'' = Inr 40" by code_simp
  have k': "py_int ''46'' = Inr 46" by code_simp
  have six: "iso_weeks_after 6 (2025, 40) = (2025, 46)" by code_simp
  have after: "iso_weeks_after (length ?rot) (2025, 40) = (2025, 46)"
    by code_simp
  have same: "40 + int (length ?rot) \<le> iso_weeks_in_year 2025" by code_simp
  have mv: "no_vacation_match ''2025-W40'' basic_schedule" by code_simp
  have mv': "no_vacation_match ''2025-W46'' basic_schedule" by code_simp
  have pv: "map_of (get_or_empty (schedule_overrides basic_schedule)) ''2025-W40'' = None"
    by (simp add: get_or_empty_def basic_schedule_def)
  have pv': "map_of (get_or_empty (schedule_overrides basic_schedule)) ''2025-W46'' = None"
    by (simp add: get_or_empty_def basic_schedule_def)
  have c: "map_sum id fst (get_responsible_person ''2025-W40'' basic_schedule) = Inr ''Chito''"
    by code_simp
  note second = rotation_periodic
      [where w = "''2025-W40''" and w' = "''2025-W46''" and sd = basic_schedule
         and rot = ?rot and ys = "''2025''" and ws = "''40''" and y = 2025 and wk = 40
         and ys' = "''2025''" and ws' = "''46''" and y' = 2025 and wk' = 46,
       THEN conjunct2, THEN mp, OF s, THEN mp, OF y, THEN mp, OF k, THEN mp, OF s',
       THEN mp, OF y, THEN mp, OF k', THEN mp, OF r, THEN mp, OF after, THEN mp, OF same,
       THEN mp, OF mv, THEN mp, OF mv', THEN mp, OF pv, THEN mp, OF pv']
  from second c
  have d: "map_sum id fst (get_responsible_person ''2025-W46'' basic_schedule) = Inr ''Chito''"
    by (simp only:)
  from a b six c d show ?thesis by (simp only: simp_thms)
qed

text \<open>
  The claim as stated, with weeks counted in the calendar, fails across the end of a
  year of 53 weeks. 2026 has 53 ISO weeks, so week 3 of 2027 lies six calendar weeks
  after week 50 of 2026; both are identifiers that \<open>get_current_week_string\<close> writes, the
  rotation has six people, no override or vacation applies, and the code counts only
  five weeks between them: week 50 falls to JC and week 3 to Vanish.
\<close>

theorem rotation_periodic_counterexample:
  "iso_weeks_after 6 (2026, 50) = (2027, 3)
   \<and> week_string_of_isocalendar 2026 50 = ''2026-W50''
   \<and> week_string_of_isocalendar 2027 3 = ''2027-W03''
   \<and> default_rotation basic_schedule
       = Some [''Esteban'', ''Chema'', ''Adrian'', ''Chito'', ''Vanish'', ''JC'']
   \<and> length [''Esteban'', ''Chema'', ''Adrian'', ''Chito'', ''Vanish'', ''JC''] = 6
   \<and> no_vacation_match ''2026-W50'' basic_schedule
   \<and> no_vacation_match ''2027-W03'' basic_schedule
   \<and> map_of (get_or_empty (schedule_overrides basic_schedule)) ''2026-W50'' = None
   \<and> map_of (get_or_empty (schedule_overrides basic_schedule)) ''2027-W03'' = None
   \<and> get_responsible_person ''2026-W50'' basic_schedule = Inr (''JC'', None)
   \<and> get_responsible_person ''2027-W03'' basic_schedule = Inr (''Vanish'', None)"
  by code_simp

subsection \<open>Errors of the resolver\<close>

text \<open>
  C9, as amended. The week is parsed, and the rotation's length used, only in the
  rotation branch. So for every week that \<open>get_total_weeks_since_epoch\<close> rejects, and for
  every schedule whose \<open>default_rotation\<close> is the empty list, \<open>get_responsible_person\<close>
  fails with an error, provided that no vacation entry applies to the week and the week
  is not a key of \<open>schedule_overrides\<close>.
\<close>

theorem malformed_week_or_empty_rotation_fails:
  assumes "get_total_weeks_since_epoch w = Inl e \<or> default_rotation sd = Some []"
    and "no_vacation_match w sd"
    and "map_of (get_or_empty (schedule_overrides sd)) w = None"
  shows "\<exists>e'. get_responsible_person w sd = Inl e'"
  using assms
  by (auto simp: grp_default default_branch_def split: sum.splits option.splits)

theorem malformed_week_or_empty_rotation_fails_witness:
  "get_responsible_person ''next week'' basic_schedule = Inl ValueError
   \<and> get_responsible_person ''2025-W31'' (basic_schedule\<lparr>default_rotation := Some []\<rparr>)
       = Inl ZeroDivisionError"
proof -
  let ?s = "basic_schedule\<lparr>default_rotation := Some []\<rparr>"
  have m: "get_total_weeks_since_epoch ''next week'' = Inl ValueError \<or>
           default_rotation basic_schedule = Some []"
    by code_simp
  have nv: "no_vacation_match ''next week'' basic_schedule" by code_simp
  have ov: "map_of (get_or_empty (schedule_overrides basic_schedule)) ''next week'' = None"
    by (simp add: get_or_empty_def basic_schedule_def)
  have m2: "get_total_weeks_since_epoch ''2025-W31'' = Inl ValueError \<or>
            default_rotation ?s = Some []"
    by simp
  have nv2: "no_vacation_match ''2025-W31'' ?s" by code_simp
  have ov2: "map_of (get_or_empty (schedule_overrides ?s)) ''2025-W31'' = None"
    by (simp add: get_or_empty_def basic_schedule_def)
  have a: "get_responsible_person ''next week'' basic_schedule = Inl ValueError"
    by code_simp
  have b: "get_responsible_person ''2025-W31'' ?s = Inl ZeroDivisionError"
    by code_simp
  from malformed_week_or_empty_rotation_fails [OF m nv ov]
    malformed_week_or_empty_rotation_fails [OF m2 nv2 ov2] a b
  show ?thesis by (simp only: simp_thms)
qed

text \<open>
  The claim as stated fails when the week is a key of \<open>schedule_overrides\<close>: the
  override is returned before anything is parsed, for a week that is no week identifier
  and with an empty rotation. It also fails for a vacation entry: the week is compared as
  a string only. And a string that is not of the form \<open>YYYY-W##\<close> may still parse:
  \<open>"25-W7"\<close> is year 25, week 7, and a person is returned for it.
\<close>

theorem malformed_week_or_empty_rotation_fails_counterexample:
  "get_total_weeks_since_epoch ''next week'' = Inl ValueError
   \<and> get_responsible_person ''next week''
       (basic_schedule\<lparr>default_rotation := Some [],
          schedule_overrides := Some [(''next week'', ''Chema'')]\<rparr>)
     = Inr (''Chema'', None)
   \<and> get_responsible_person ''next week''
       (basic_schedule\<lparr>vacation_weeks := Some [(''Chema'', [''next week''])]\<rparr>)
     = Inr (''Adrian'', None)
   \<and> \<not> well_formed_week ''25-W7''
   \<and> get_responsible_person ''25-W7'' basic_schedule = Inr (''Vanish'', None)"
  by code_simp

section \<open>Properties of the formatter\<close>

subsection \<open>Auxiliary facts\<close>

lemma markup_next_acc:
  "markup_next acc s =
     (case markup_next [] s of Inl e \<Rightarrow> Inl e | Inr (l, f, r) \<Rightarrow> Inr (rev acc @ l, f, r))"
proof (induction s arbitrary: acc)
  case Nil
  show ?case by simp
next
  case (Cons c cs)
  show ?case
  proof (cases "c = CHR ''{'' \<or> c = CHR ''}''")
    case True
    then show ?thesis by (auto split: list.splits sum.splits)
  next
    case False
    then have "markup_next acc (c # cs) = markup_next (c # acc) cs"
      and "markup_next [] (c # cs) = markup_next [c] cs"
      by simp_all
    then show ?thesis
      using Cons.IH [of "c # acc"] Cons.IH [of "[c]"]
      by (simp split: sum.splits)
  qed
qed

lemma build_string_Suc:
  "build_string rt name week (Suc d) s =
     (case markup_items s of
        (items, err) \<Rightarrow> do_markup rt name week (build_string rt name week d) items err)"
  by (simp add: build_string.simps)

lemma markup_next_literal:
  assumes "c \<noteq> CHR ''{''" and "c \<noteq> CHR ''}''"
  shows "markup_next [] (c # s) =
     (case markup_next [] s of Inl e \<Rightarrow> Inl e | Inr (l, f, r) \<Rightarrow> Inr (c # l, f, r))"
proof -
  have "markup_next [] (c # s) = markup_next [c] s"
    using assms by simp
  also have "\<dots> = (case markup_next [] s of Inl e \<Rightarrow> Inl e
                    | Inr (l, f, r) \<Rightarrow> Inr (rev [c] @ l, f, r))"
    by (rule markup_next_acc)
  finally show ?thesis by (simp only: rev.simps append.simps)
qed

lemma markup_items_literal:
  assumes "c \<noteq> CHR ''{''" and "c \<noteq> CHR ''}''"
  shows "markup_items (c # d # ds) =
     (case markup_items (d # ds) of
        ([], err) \<Rightarrow> ([], err)
      | ((l, f) # items, err) \<Rightarrow> ((c # l, f) # items, err))"
  by (simp add: markup_next_literal [OF assms] del: markup_next.simps
        split: sum.splits prod.splits list.splits)

lemma markup_items_Cons_not_empty:
  "markup_items (x # xs) \<noteq> ([], None)"
  by (simp del: markup_next.simps split: sum.splits prod.splits)

lemma build_literal_char:
  assumes "c \<noteq> CHR ''{''" and "c \<noteq> CHR ''}''"
  shows "build_string rt name week (Suc d) (c # s) =
     (case build_string rt name week (Suc d) s of Inl e \<Rightarrow> Inl e | Inr r \<Rightarrow> Inr (c # r))"
proof (cases s)
  case Nil
  with assms show ?thesis by (simp add: build_string_Suc)
next
  case (Cons x xs)
  show ?thesis
    unfolding Cons build_string_Suc markup_items_literal [OF assms]
    using markup_items_Cons_not_empty [of x xs]
    by (simp del: markup_items.simps split: sum.splits prod.splits list.splits option.splits)
qed

lemma build_literal:
  "brace_free t \<Longrightarrow>
   build_string rt name week (Suc d) (t @ s) =
     (case build_string rt name week (Suc d) s of Inl e \<Rightarrow> Inl e | Inr r \<Rightarrow> Inr (t @ r))"
proof (induction t)
  case Nil
  show ?case by (simp split: sum.splits)
next
  case (Cons c t)
  then have c: "c \<noteq> CHR ''{''" "c \<noteq> CHR ''}''" and t: "brace_free t"
    by (simp_all add: brace_free_def)
  show ?case
    using build_literal_char [OF c, of rt name week d "t @ s"] Cons.IH [OF t]
    by (simp split: sum.splits)
qed

lemma output_markup_name:
  "output_markup rt name week expand
     \<lparr>field_name = ''name'', conversion = CHR 0x00, format_spec = [],
      format_spec_needs_expanding = False\<rparr> = Inr name"
  by (simp add: output_markup_def get_field_object_def get_integer_def is_digit_def
        arg_name_def accessors_def is_accessor_start_def lookup_keyword_def render_field_def
        py_str_def)

lemma output_markup_week:
  "output_markup rt name week expand
     \<lparr>field_name = ''week'', conversion = CHR 0x00, format_spec = [],
      format_spec_needs_expanding = False\<rparr> = Inr (py_str (PInt week))"
  by (simp add: output_markup_def get_field_object_def get_integer_def is_digit_def
        arg_name_def accessors_def is_accessor_start_def lookup_keyword_def render_field_def)

lemma markup_items_name:
  "markup_items (''{name}'' @ s) =
     (case markup_items s of
        (items, err) \<Rightarrow>
          (([], Some \<lparr>field_name = ''name'', conversion = CHR 0x00, format_spec = [],
                     format_spec_needs_expanding = False\<rparr>) # items, err))"
  by (simp add: parse_field_def)

lemma markup_items_week:
  "markup_items (''{week}'' @ s) =
     (case markup_items s of
        (items, err) \<Rightarrow>
          (([], Some \<lparr>field_name = ''week'', conversion = CHR 0x00, format_spec = [],
                     format_spec_needs_expanding = False\<rparr>) # items, err))"
  by (simp add: parse_field_def)

lemma build_name:
  "build_string rt name week (Suc d) (''{name}'' @ s) =
     (case build_string rt name week (Suc d) s of Inl e \<Rightarrow> Inl e | Inr r \<Rightarrow> Inr (name @ r))"
  unfolding build_string_Suc markup_items_name
  by (simp add: output_markup_name split: prod.splits sum.splits)

lemma build_week:
  "build_string rt name week (Suc d) (''{week}'' @ s) =
     (case build_string rt name week (Suc d) s of Inl e \<Rightarrow> Inl e
      | Inr r \<Rightarrow> Inr (py_str (PInt week) @ r))"
  unfolding build_string_Suc markup_items_week
  by (simp add: output_markup_week split: prod.splits sum.splits)

lemma build_pieces:
  "plain_pieces ps \<Longrightarrow>
   build_string rt name week (Suc d) (template_of ps) = Inr (substituted name week ps)"
proof (induction ps rule: plain_pieces.induct)
  case 1
  show ?case by (simp add: build_string_Suc)
next
  case (2 t ps)
  then show ?case by (simp add: build_literal)
next
  case (3 ps)
  then show ?case by (simp only: template_of.simps build_name) simp
next
  case (4 ps)
  then show ?case by (simp only: template_of.simps build_week) simp
qed

lemma py_format_pieces:
  "plain_pieces ps \<Longrightarrow> py_format rt (template_of ps) name week = Inr (substituted name week ps)"
  by (simp add: py_format_def numeral_2_eq_2 build_pieces)

lemma unknown_argument_lookup_fails:
  "\<not> known_argument fname \<Longrightarrow> \<exists>e. get_field_object rt name week fname = Inl e"
  by (auto simp: get_field_object_def known_argument_def lookup_keyword_def
        split: sum.splits option.splits)

lemma output_markup_unknown:
  "\<not> known_argument (field_name f) \<Longrightarrow> \<exists>e. output_markup rt name week expand f = Inl e"
  using unknown_argument_lookup_fails [of "field_name f" rt name week]
  by (auto simp: output_markup_def)

lemma output_markup_spec_fails:
  "format_spec_needs_expanding f \<Longrightarrow> expand (format_spec f) = Inl e \<Longrightarrow>
   \<exists>e'. output_markup rt name week expand f = Inl e'"
  by (auto simp: output_markup_def split: sum.splits)

lemma do_markup_field_fails:
  "(lit, Some f) \<in> set items \<Longrightarrow> output_markup rt name week expand f = Inl e \<Longrightarrow>
   \<exists>e'. do_markup rt name week expand items err = Inl e'"
proof (induction items)
  case Nil
  then show ?case by simp
next
  case (Cons item items)
  obtain l fo where item: "item = (l, fo)" by (cases item)
  show ?case
  proof (cases "item = (lit, Some f)")
    case True
    with Cons.prems(2) show ?thesis by auto
  next
    case False
    with Cons.prems have "(lit, Some f) \<in> set items" by simp
    from Cons.IH [OF this Cons.prems(2)] item show ?thesis
      by (auto split: sum.splits option.splits)
  qed
qed

lemma build_string_unknown:
  "references_unknown d s \<Longrightarrow> \<exists>e. build_string rt name week n s = Inl e"
proof (induction n arbitrary: d s)
  case 0
  show ?case by (simp add: build_string.simps)
next
  case (Suc n)
  obtain d' where d: "d = Suc d'"
    using Suc.prems by (cases d) simp_all
  obtain items err where items: "markup_items s = (items, err)"
    by (cases "markup_items s")
  from Suc.prems d items obtain lit f where mem: "(lit, Some f) \<in> set items"
    and bad: "\<not> known_argument (field_name f) \<or>
              (format_spec_needs_expanding f \<and> references_unknown d' (format_spec f))"
    by (auto simp: list_ex_iff split: option.splits)
  have "\<exists>e. output_markup rt name week (build_string rt name week n) f = Inl e"
  proof (cases "known_argument (field_name f)")
    case False
    then show ?thesis by (rule output_markup_unknown)
  next
    case True
    with bad have needs: "format_spec_needs_expanding f"
      and nested: "references_unknown d' (format_spec f)"
      by simp_all
    from Suc.IH [OF nested] obtain e where "build_string rt name week n (format_spec f) = Inl e"
      by blast
    with needs show ?thesis by (rule output_markup_spec_fails)
  qed
  then obtain e where "output_markup rt name week (build_string rt name week n) f = Inl e"
    by blast
  from do_markup_field_fails [OF mem this] items show ?case
    by (simp add: build_string_Suc)
qed

subsection \<open>Substitution\<close>

text \<open>
  C7, as amended. For every template written with brace-free text and the placeholders
  \<open>{name}\<close> and \<open>{week}\<close>, \<open>format_message\<close> returns the template with \<open>{name}\<close>
  replaced by the person and \<open>{week}\<close> by the week-of-year integer taken from the week
  identifier. A special message that is present and not empty is used as the template
  instead of the default template, whatever the default template is; an empty special
  message counts as absent (\<open>if special_message:\<close>). And
  \<open>format_message("Week {week}: {name}", "Adrian", "2025-W33")\<close> is
  \<open>"Week 33: Adrian"\<close>.
\<close>

theorem format_message_substitutes:
  "(get_week_number week_string = Inr week_number \<longrightarrow> plain_pieces ps \<longrightarrow>
      (special_message = None \<or> special_message = Some [] \<longrightarrow>
         format_message rt (template_of ps) name week_string special_message
           = Inr (substituted name week_number ps))
      \<and> (template_of ps \<noteq> [] \<longrightarrow>
         format_message rt template name week_string (Some (template_of ps))
           = Inr (substituted name week_number ps)))
   \<and> format_message rt ''Week {week}: {name}'' ''Adrian'' ''2025-W33'' None
       = Inr ''Week 33: Adrian''"
proof (intro conjI impI)
  assume w: "get_week_number week_string = Inr week_number" and ps: "plain_pieces ps"
    and sp: "special_message = None \<or> special_message = Some []"
  from sp show "format_message rt (template_of ps) name week_string special_message
      = Inr (substituted name week_number ps)"
    by (auto simp: format_message_def w py_format_pieces [OF ps])
next
  assume w: "get_week_number week_string = Inr week_number" and ps: "plain_pieces ps"
    and ne: "template_of ps \<noteq> []"
  then show "format_message rt template name week_string (Some (template_of ps))
      = Inr (substituted name week_number ps)"
    by (simp add: format_message_def py_format_pieces [OF ps])
next
  show "format_message rt ''Week {week}: {name}'' ''Adrian'' ''2025-W33'' None
      = Inr ''Week 33: Adrian''"
    by code_simp
qed

text \<open>
  The witness is the special message of \<open>test_format_message_with_special\<close>, once as the
  special message over another default template and once as the default template.
\<close>

theorem format_message_substitutes_witness:
  "format_message strict_runtime ''Regular: {name} for week {week}'' ''Chema'' ''2025-W52''
     (Some ''Special: {name} on week {week}!'')
     = Inr ''Special: Chema on week 52!''
   \<and> format_message strict_runtime ''Special: {name} on week {week}!'' ''Chema'' ''2025-W52''
     (Some []) = Inr ''Special: Chema on week 52!''"
proof -
  let ?ps = "[Text ''Special: '', NamePlaceholder, Text '' on week '', WeekPlaceholder,
              Text ''!'']"
  have w: "get_week_number ''2025-W52'' = Inr 52" by code_simp
  have ps: "plain_pieces ?ps" by code_simp
  have t: "template_of ?ps = ''Special: {name} on week {week}!''" by simp
  have ne: "template_of ?ps \<noteq> []" by simp
  have s: "substituted ''Chema'' 52 ?ps = ''Special: Chema on week 52!''" by code_simp
  have e: "(Some [] :: string option) = None \<or> (Some [] :: string option) = Some []"
    by simp
  note inst = format_message_substitutes
      [of "''2025-W52''" 52 ?ps "Some []" strict_runtime "''Chema''"
          "''Regular: {name} for week {week}''",
       THEN conjunct1, THEN mp, OF w, THEN mp, OF ps]
  note a = inst [THEN conjunct2, THEN mp, OF ne]
  note b = inst [THEN conjunct1, THEN mp, OF e]
  from a b show ?thesis by (simp only: t s simp_thms)
qed

text \<open>
  The claim as stated fails for a special message that is present but empty: the default
  template is used, not the (empty) special message.
\<close>

theorem format_message_substitutes_counterexample:
  "format_message strict_runtime ''Week {week}: {name}'' ''Adrian'' ''2025-W33'' (Some [])
     = Inr ''Week 33: Adrian''
   \<and> py_format strict_runtime [] ''Adrian'' 33 = Inr []"
  by code_simp

subsection \<open>Unknown placeholders\<close>

text \<open>
  C8. When the template that \<open>format_message\<close> formats (the default template, or the
  special message when one is present and not empty) references a placeholder other
  than \<open>name\<close> and \<open>week\<close>, \<open>format_message\<close> fails with an error; it has no handler, so
  the error is its result. This holds whatever the rest of the template is and whatever
  Python does with conversions, attribute access and format specs.
\<close>

theorem unknown_placeholder_fails:
  "(special_message = None \<or> special_message = Some [] \<longrightarrow>
      references_unknown d template \<longrightarrow>
      (\<exists>e. format_message rt template name week_string special_message = Inl e))
   \<and> (special \<noteq> [] \<longrightarrow> references_unknown d special \<longrightarrow>
      (\<exists>e. format_message rt template name week_string (Some special) = Inl e))"
proof (intro conjI impI)
  assume sp: "special_message = None \<or> special_message = Some []"
    and u: "references_unknown d template"
  show "\<exists>e. format_message rt template name week_string special_message = Inl e"
  proof (cases "get_week_number week_string")
    case (Inl e)
    then show ?thesis by (simp add: format_message_def)
  next
    case (Inr wk)
    from build_string_unknown [OF u, of rt name wk 2]
    obtain e where "py_format rt template name wk = Inl e"
      by (auto simp: py_format_def)
    with Inr sp show ?thesis by (auto simp: format_message_def)
  qed
next
  assume ne: "special \<noteq> []" and u: "references_unknown d special"
  show "\<exists>e. format_message rt template name week_string (Some special) = Inl e"
  proof (cases "get_week_number week_string")
    case (Inl e)
    then show ?thesis by (simp add: format_message_def)
  next
    case (Inr wk)
    from build_string_unknown [OF u, of rt name wk 2]
    obtain e where "py_format rt special name wk = Inl e"
      by (auto simp: py_format_def)
    with Inr ne show ?thesis by (simp add: format_message_def)
  qed
qed

theorem unknown_placeholder_fails_witness:
  "format_message strict_runtime ''Week {week}: {nombre}'' ''Adrian'' ''2025-W33'' None
     = Inl KeyError
   \<and> format_message strict_runtime ''Week {week}: {name}'' ''Adrian'' ''2025-W33''
       (Some ''{name} brings {0} balls'') = Inl IndexError"
proof -
  have n: "(None :: string option) = None \<or> (None :: string option) = Some []" by simp
  have u1: "references_unknown 1 ''Week {week}: {nombre}''" by code_simp
  have ne: "''{name} brings {0} balls'' \<noteq> []" by simp
  have u2: "references_unknown 1 ''{name} brings {0} balls''" by code_simp
  have a: "format_message strict_runtime ''Week {week}: {nombre}'' ''Adrian'' ''2025-W33'' None
     = Inl KeyError"
    by code_simp
  have b: "format_message strict_runtime ''Week {week}: {name}'' ''Adrian'' ''2025-W33''
       (Some ''{name} brings {0} balls'') = Inl IndexError"
    by code_simp
  note i1 = unknown_placeholder_fails
      [of None 1 "''Week {week}: {nombre}''" strict_runtime "''Adrian''" "''2025-W33''"
          "''{name} brings {0} balls''",
       THEN conjunct1, THEN mp, OF n, THEN mp, OF u1]
  note i2 = unknown_placeholder_fails
      [of None 1 "''Week {week}: {name}''" strict_runtime "''Adrian''" "''2025-W33''"
          "''{name} brings {0} balls''",
       THEN conjunct2, THEN mp, OF ne, THEN mp, OF u2]
  from i1 i2 a b show ?thesis by (simp only: simp_thms)
qed

end
